theory Spec2Isabelle
  imports Main "HOL-Library.Word"
begin

unbundle bit_operations_syntax

section \<open>Values and the store\<close>

text \<open>
  The module is TypeScript that runs as JavaScript. A value is a primitive, a function or
  a reference to an object in the store; two references are the same object exactly when
  they are the same address. Numbers are carried as the 64 bits of the IEEE double, which
  the module never computes with. Strings are lists of characters in the Latin-1 range,
  where a code point is one UTF-16 unit. Functions are identified by name: the three
  plugins that \<open>index.ts\<close> imports, and any other function \<open>Extern n\<close>.
  Symbols and BigInts are left out.
\<close>

type_synonym addr = nat

datatype fn = RemarkMdx | RemarkUnravelMdx | RehypeMdxElements | Extern nat

datatype jsval =
    VUndefined
  | VNull
  | VBool bool
  | VNum "64 word"
  | VStr string
  | VFun fn
  | VRef addr

text \<open>
  An object is the list of its own enumerable string-keyed data properties, in the order
  in which the engine enumerates them; an array is the list of its elements. Objects are
  plain: no accessors, and nothing inherited under the names this module reads.
\<close>

type_synonym 'v props = "(string \<times> 'v) list"

datatype cell = Object "jsval props" | Array "jsval list"

type_synonym heap = "cell list"

definition cell_at :: "heap \<Rightarrow> addr \<Rightarrow> cell option" where
  "cell_at h a = (if a < length h then Some (h ! a) else None)"

text \<open>What a call can throw: the engine's TypeError, or whatever external code threw.\<close>

datatype 'e exn = TypeError | Thrown 'e

section \<open>The language operations the module uses\<close>

definition nullish :: "jsval \<Rightarrow> bool" where
  "nullish v = (v = VUndefined \<or> v = VNull)"

text \<open>Truthiness: a number is falsy when it is +0, -0 or a NaN.\<close>

fun ToBoolean :: "jsval \<Rightarrow> bool" where
  "ToBoolean VUndefined = False"
| "ToBoolean VNull = False"
| "ToBoolean (VBool b) = b"
| "ToBoolean (VNum w) =
     (let m = w AND 0x7FFFFFFFFFFFFFFF in m \<noteq> 0 \<and> m \<le> 0x7FF0000000000000)"
| "ToBoolean (VStr s) = (s \<noteq> [])"
| "ToBoolean (VFun f) = True"
| "ToBoolean (VRef a) = True"

text \<open>Decimal notation of an index, as the keys of an array or a string have it.\<close>

fun show_nat :: "nat \<Rightarrow> string" where
  "show_nat n =
     (if n < 10 then [char_of (48 + n)]
      else show_nat (n div 10) @ [char_of (48 + n mod 10)])"

definition is_digit :: "char \<Rightarrow> bool" where
  "is_digit c = (48 \<le> (of_char c :: int) \<and> (of_char c :: int) \<le> 57)"

definition digits_val :: "string \<Rightarrow> int" where
  "digits_val s = foldl (\<lambda>acc c. 10 * acc + (of_char c - 48)) 0 s"

text \<open>
  An array index is a key that is the canonical decimal notation of an integer below
  \<open>2^32 - 1\<close>. Such keys are enumerated first, in ascending order; the other keys
  follow in the order of their creation.
\<close>

definition array_index :: "string \<Rightarrow> int option" where
  "array_index k =
     (if k \<noteq> [] \<and> list_all is_digit k \<and> (length k = 1 \<or> hd k \<noteq> CHR ''0'')
         \<and> digits_val k < 4294967295
      then Some (digits_val k) else None)"

fun update_prop :: "string \<Rightarrow> 'v \<Rightarrow> 'v props \<Rightarrow> 'v props" where
  "update_prop k v [] = []"
| "update_prop k v ((k', v') # ps) =
     (if k' = k then (k, v) # ps else (k', v') # update_prop k v ps)"

fun insert_index :: "int \<Rightarrow> string \<Rightarrow> 'v \<Rightarrow> 'v props \<Rightarrow> 'v props" where
  "insert_index n k v [] = [(k, v)]"
| "insert_index n k v ((k', v') # ps) =
     (case array_index k' of
        Some m \<Rightarrow> if m < n then (k', v') # insert_index n k v ps
                  else (k, v) # (k', v') # ps
      | None \<Rightarrow> (k, v) # (k', v') # ps)"

text \<open>
  Defining a data property: an existing key keeps its place and takes the new value, a new
  key goes where the enumeration order puts it.
\<close>

definition set_prop :: "string \<Rightarrow> 'v \<Rightarrow> 'v props \<Rightarrow> 'v props" where
  "set_prop k v ps =
     (if k \<in> fst ` set ps then update_prop k v ps
      else case array_index k of
             Some n \<Rightarrow> insert_index n k v ps
           | None \<Rightarrow> ps @ [(k, v)])"

text \<open>
  The own enumerable properties of a value, as object spread, rest destructuring and
  \<open>Object.keys\<close> see them. A primitive other than a string has none, nor has a function.
\<close>

fun own_props :: "heap \<Rightarrow> jsval \<Rightarrow> jsval props" where
  "own_props h (VRef a) =
     (case cell_at h a of
        Some (Object ps) \<Rightarrow> ps
      | Some (Array xs) \<Rightarrow> zip (map show_nat [0..<length xs]) xs
      | None \<Rightarrow> [])"
| "own_props h (VStr s) = zip (map show_nat [0..<length s]) (map (\<lambda>c. VStr [c]) s)"
| "own_props h v = []"

definition Object_keys :: "heap \<Rightarrow> jsval \<Rightarrow> string list" where
  "Object_keys h v = map fst (own_props h v)"

text \<open>Reading a property of a value that is neither undefined nor null.\<close>

definition Get :: "heap \<Rightarrow> jsval \<Rightarrow> string \<Rightarrow> jsval" where
  "Get h v k = (case map_of (own_props h v) k of Some x \<Rightarrow> x | None \<Rightarrow> VUndefined)"

text \<open>Iterating a value, as a spread element in an array literal does.\<close>

fun iterate :: "heap \<Rightarrow> jsval \<Rightarrow> 'e exn + jsval list" where
  "iterate h (VRef a) =
     (case cell_at h a of Some (Array xs) \<Rightarrow> Inr xs | _ \<Rightarrow> Inl TypeError)"
| "iterate h (VStr s) = Inr (map (\<lambda>c. VStr [c]) s)"
| "iterate h v = Inl TypeError"

text \<open>The spread element \<open>...(v ?? [])\<close>.\<close>

definition spread_or_empty :: "heap \<Rightarrow> jsval \<Rightarrow> 'e exn + jsval list" where
  "spread_or_empty h v = (if nullish v then Inr [] else iterate h v)"

subsection \<open>Literals and their allocation\<close>

text \<open>
  What an array or object literal of the module builds: a fresh structure whose leaves are
  values that existed before. Allocation stores it, innermost first, at new addresses.
\<close>

datatype lit = Val jsval | ArrayLit "lit list" | ObjectLit "(string \<times> lit) list"

fun alloc :: "lit \<Rightarrow> heap \<Rightarrow> jsval \<times> heap"
  and alloc_list :: "lit list \<Rightarrow> heap \<Rightarrow> jsval list \<times> heap"
  and alloc_props :: "(string \<times> lit) list \<Rightarrow> heap \<Rightarrow> jsval props \<times> heap" where
  "alloc (Val v) h = (v, h)"
| "alloc (ArrayLit ls) h =
     (case alloc_list ls h of (vs, h') \<Rightarrow> (VRef (length h'), h' @ [Array vs]))"
| "alloc (ObjectLit ps) h =
     (case alloc_props ps h of (qs, h') \<Rightarrow> (VRef (length h'), h' @ [Object qs]))"
| "alloc_list [] h = ([], h)"
| "alloc_list (l # ls) h =
     (case alloc l h of (v, h1) \<Rightarrow>
      case alloc_list ls h1 of (vs, h2) \<Rightarrow> (v # vs, h2))"
| "alloc_props [] h = ([], h)"
| "alloc_props (p # ps) h =
     (case alloc (snd p) h of (v, h1) \<Rightarrow>
      case alloc_props ps h1 of (qs, h2) \<Rightarrow> ((fst p, v) # qs, h2))"

text \<open>
  Copying the own enumerable properties of a source value onto the properties of an
  object under construction, leaving out the excluded names: for each own key in turn,
  read the source and define the property. Object spread excludes nothing; rest
  destructuring excludes the names bound before it.
\<close>

definition CopyDataProperties :: "heap \<Rightarrow> lit props \<Rightarrow> jsval \<Rightarrow> string list \<Rightarrow> lit props" where
  "CopyDataProperties h target source excluded =
     fold (\<lambda>k t. if k \<in> set excluded then t else set_prop k (Val (Get h source k)) t)
       (Object_keys h source) target"

section \<open>The module \<open>index.ts\<close>\<close>

text \<open>
  The source tree holds two revisions of \<open>withMdx\<close>: \<open>src/index.ts\<close> and the copy at the
  head of the unnamed part 0. They differ in the one line that derives the allowlist.
\<close>

datatype revision = Index_ts | Part_000

text \<open>
  React's \<open>createElement\<close> is external. The model keeps what it is called with: the
  component, and the props object, which the object literal in the argument allocates.
\<close>

record 'c element =
  el_type :: 'c
  el_props :: jsval

definition createElement :: "'c \<Rightarrow> lit \<Rightarrow> heap \<Rightarrow> 'c element \<times> heap" where
  "createElement component config h =
     (case alloc config h of (v, h') \<Rightarrow> (\<lparr>el_type = component, el_props = v\<rparr>, h'))"

subsection \<open>\<open>withMdx\<close>\<close>

text \<open>
  \<^verbatim>\<open>[remarkMdx, ...(remarkPlugins ?? []), remarkUnravelMdx, ...(remarkMdxPlugins ?? [])]\<close>
\<close>

definition mergedRemarkPlugins :: "heap \<Rightarrow> jsval \<Rightarrow> jsval \<Rightarrow> 'e exn + lit" where
  "mergedRemarkPlugins h remarkPlugins remarkMdxPlugins =
     (case spread_or_empty h remarkPlugins of
        Inl e \<Rightarrow> Inl e
      | Inr ps \<Rightarrow>
          (case spread_or_empty h remarkMdxPlugins of
             Inl e \<Rightarrow> Inl e
           | Inr ms \<Rightarrow>
               Inr (ArrayLit ([Val (VFun RemarkMdx)] @ map Val ps
                      @ [Val (VFun RemarkUnravelMdx)] @ map Val ms))))"

text \<open>
  \<open>src/index.ts\<close>: \<^verbatim>\<open>components ? Object.keys(components) : undefined\<close>;
  part 0: \<^verbatim>\<open>components && Object.keys(components)\<close>.
\<close>

definition allowedComponents :: "revision \<Rightarrow> heap \<Rightarrow> jsval \<Rightarrow> lit" where
  "allowedComponents src h components =
     (if ToBoolean components
      then ArrayLit (map (\<lambda>k. Val (VStr k)) (Object_keys h components))
      else (case src of Index_ts \<Rightarrow> Val VUndefined | Part_000 \<Rightarrow> Val components))"

text \<open>
  \<^verbatim>\<open>[[rehypeMdxElements, { allowedElements: allowedComponents }], ...(rehypePlugins ?? [])]\<close>
\<close>

definition mergedRehypePlugins :: "heap \<Rightarrow> lit \<Rightarrow> jsval \<Rightarrow> 'e exn + lit" where
  "mergedRehypePlugins h allowed rehypePlugins =
     (case spread_or_empty h rehypePlugins of
        Inl e \<Rightarrow> Inl e
      | Inr rs \<Rightarrow>
          Inr (ArrayLit
                ([ArrayLit [Val (VFun RehypeMdxElements),
                            ObjectLit [(''allowedElements'', allowed)]]]
                 @ map Val rs)))"

text \<open>
  \<^verbatim>\<open>{ passThrough: ["mdxJsxFlowElement", "mdxJsxTextElement"], ...remarkRehypeOptions }\<close>
\<close>

definition requiredRemarkRehypeOptions :: "lit props" where
  "requiredRemarkRehypeOptions =
     [(''passThrough'',
       ArrayLit [Val (VStr ''mdxJsxFlowElement''), Val (VStr ''mdxJsxTextElement'')])]"

definition mergedRemarkRehypeOptions :: "heap \<Rightarrow> jsval \<Rightarrow> lit" where
  "mergedRemarkRehypeOptions h remarkRehypeOptions =
     ObjectLit (CopyDataProperties h requiredRemarkRehypeOptions remarkRehypeOptions [])"

text \<open>The names that the parameter pattern of the wrapped component binds before the rest.\<close>

definition bound_names :: "string list" where
  "bound_names = [''components'', ''remarkPlugins'', ''remarkMdxPlugins'',
                  ''rehypePlugins'', ''remarkRehypeOptions'']"

text \<open>
  The object literal that the wrapped component gives to \<open>createElement\<close>. Destructuring
  the parameter throws when it is undefined or null. The rest object \<open>props\<close> is fresh and
  already in enumeration order, so spreading it into the empty literal gives its own
  properties again; the four named properties are then defined in the order written.
\<close>

definition ReactMarkdownWithMdx_props :: "revision \<Rightarrow> heap \<Rightarrow> jsval \<Rightarrow> 'e exn + lit" where
  "ReactMarkdownWithMdx_props src h arg =
     (if nullish arg then Inl TypeError
      else
        let components = Get h arg ''components'';
            remarkPlugins = Get h arg ''remarkPlugins'';
            remarkMdxPlugins = Get h arg ''remarkMdxPlugins'';
            rehypePlugins = Get h arg ''rehypePlugins'';
            remarkRehypeOptions = Get h arg ''remarkRehypeOptions'';
            props = CopyDataProperties h [] arg bound_names
        in (case mergedRemarkPlugins h remarkPlugins remarkMdxPlugins of
              Inl e \<Rightarrow> Inl e
            | Inr remark \<Rightarrow>
                (case mergedRehypePlugins h (allowedComponents src h components) rehypePlugins of
                   Inl e \<Rightarrow> Inl e
                 | Inr rehype \<Rightarrow>
                     Inr (ObjectLit
                           (set_prop ''remarkRehypeOptions''
                              (mergedRemarkRehypeOptions h remarkRehypeOptions)
                           (set_prop ''rehypePlugins'' rehype
                           (set_prop ''remarkPlugins'' remark
                           (set_prop ''components'' (Val components) props))))))))"

definition ReactMarkdownWithMdx ::
  "revision \<Rightarrow> 'c \<Rightarrow> heap \<Rightarrow> jsval \<Rightarrow> 'e exn + ('c element \<times> heap)" where
  "ReactMarkdownWithMdx src MarkdownComponent h arg =
     (case ReactMarkdownWithMdx_props src h arg of
        Inl e \<Rightarrow> Inl e
      | Inr config \<Rightarrow> Inr (createElement MarkdownComponent config h))"

definition withMdx ::
  "revision \<Rightarrow> 'c \<Rightarrow> (heap \<Rightarrow> jsval \<Rightarrow> 'e exn + ('c element \<times> heap))" where
  "withMdx src MarkdownComponent = ReactMarkdownWithMdx src MarkdownComponent"

subsection \<open>\<open>mdxComponent\<close>\<close>

text \<open>
  The argument of \<open>validator.parse\<close>:
  \<^verbatim>\<open>{ ...node?.properties, children }\<close>.
\<close>

definition parse_input :: "heap \<Rightarrow> jsval \<Rightarrow> jsval \<Rightarrow> lit" where
  "parse_input h node children =
     (let properties = (if nullish node then VUndefined else Get h node ''properties'')
      in ObjectLit (set_prop ''children'' (Val children)
                      (CopyDataProperties h [] properties [])))"

text \<open>
  The validator is a Zod schema, external to the module: \<open>parse\<close> either throws or returns
  the parsed value, in a store that it may have changed. The component returned by
  \<open>mdxComponent\<close> spreads the parsed value into the props of the element.
\<close>

type_synonym 'e validator = "heap \<Rightarrow> jsval \<Rightarrow> 'e + (jsval \<times> heap)"

definition ReactMarkownComponent ::
  "'c \<Rightarrow> 'e validator \<Rightarrow> heap \<Rightarrow> jsval \<Rightarrow> 'e exn + ('c element \<times> heap)" where
  "ReactMarkownComponent Component validator h arg =
     (if nullish arg then Inl TypeError
      else
        let node = Get h arg ''node'';
            children = Get h arg ''children''
        in (case alloc (parse_input h node children) h of
              (candidate, h1) \<Rightarrow>
                (case validator h1 candidate of
                   Inl z \<Rightarrow> Inl (Thrown z)
                 | Inr (props, h2) \<Rightarrow>
                     Inr (createElement Component
                            (ObjectLit (CopyDataProperties h2 [] props [])) h2))))"

definition mdxComponent ::
  "'c \<Rightarrow> 'e validator \<Rightarrow> (heap \<Rightarrow> jsval \<Rightarrow> 'e exn + ('c element \<times> heap))" where
  "mdxComponent Component validator = ReactMarkownComponent Component validator"

section \<open>Reading what was built\<close>

text \<open>The property of an object literal under a key.\<close>

definition lit_prop :: "lit \<Rightarrow> string \<Rightarrow> lit option" where
  "lit_prop l k = (case l of ObjectLit ps \<Rightarrow> map_of ps k | _ \<Rightarrow> None)"







text \<open>A value that is an array of the store, as the type \<open>PluggableList\<close> asks.\<close>

definition is_array :: "heap \<Rightarrow> jsval \<Rightarrow> bool" where
  "is_array h v =
     (case v of
        VRef a \<Rightarrow> (case cell_at h a of Some (Array xs) \<Rightarrow> True | _ \<Rightarrow> False)
      | _ \<Rightarrow> False)"

text \<open>
  A value of the store holds a literal when it has the literal's shape, with the
  literal's values at the leaves.
\<close>

fun holds :: "heap \<Rightarrow> jsval \<Rightarrow> lit \<Rightarrow> bool"
  and holds_list :: "heap \<Rightarrow> jsval list \<Rightarrow> lit list \<Rightarrow> bool"
  and holds_props :: "heap \<Rightarrow> jsval props \<Rightarrow> (string \<times> lit) list \<Rightarrow> bool" where
  "holds h v (Val w) = (v = w)"
| "holds h v (ArrayLit ls) =
     (case v of
        VRef a \<Rightarrow> (case cell_at h a of Some (Array vs) \<Rightarrow> holds_list h vs ls | _ \<Rightarrow> False)
      | _ \<Rightarrow> False)"
| "holds h v (ObjectLit ps) =
     (case v of
        VRef a \<Rightarrow> (case cell_at h a of Some (Object qs) \<Rightarrow> holds_props h qs ps | _ \<Rightarrow> False)
      | _ \<Rightarrow> False)"
| "holds_list h [] [] = True"
| "holds_list h (v # vs) (l # ls) = (holds h v l \<and> holds_list h vs ls)"
| "holds_list h vs ls = False"
| "holds_props h [] [] = True"
| "holds_props h (q # qs) (p # ps) =
     (fst q = fst p \<and> holds h (snd q) (snd p) \<and> holds_props h qs ps)"
| "holds_props h qs ps = False"

section \<open>A sample call\<close>

text \<open>
  A store as the test suite builds it: the props at address 0 carry the markdown text, a
  components map with two renderers, one remark plugin, one rehype plugin, a
  \<open>remarkRehypeOptions\<close> record and \<open>skipHtml\<close>.
\<close>

definition sample_store :: heap where
  "sample_store =
     [Object [(''children'', VStr ''# Test''),
              (''components'', VRef 1),
              (''remarkPlugins'', VRef 2),
              (''rehypePlugins'', VRef 3),
              (''remarkRehypeOptions'', VRef 4),
              (''skipHtml'', VBool False)],
      Object [(''TestButton'', VFun (Extern 0)), (''TestAlert'', VFun (Extern 1))],
      Array [VFun (Extern 2)],
      Array [VFun (Extern 3)],
      Object [(''footnoteLabel'', VStr ''Custom footnotes'')]]"


text \<open>The store after the call: the five cells of before, and the eight new ones.\<close>

definition sample_store_after :: heap where
  "sample_store_after =
     sample_store @
     [Array [VFun RemarkMdx, VFun (Extern 2), VFun RemarkUnravelMdx],
      Array [VStr ''TestButton'', VStr ''TestAlert''],
      Object [(''allowedElements'', VRef 6)],
      Array [VFun RehypeMdxElements, VRef 7],
      Array [VRef 8, VFun (Extern 3)],
      Array [VStr ''mdxJsxFlowElement'', VStr ''mdxJsxTextElement''],
      Object [(''passThrough'', VRef 10), (''footnoteLabel'', VStr ''Custom footnotes'')],
      Object [(''children'', VStr ''# Test''),
              (''skipHtml'', VBool False),
              (''components'', VRef 1),
              (''remarkPlugins'', VRef 5),
              (''rehypePlugins'', VRef 9),
              (''remarkRehypeOptions'', VRef 11)]]"

text \<open>
  A later store in which a second props object, at address 6, has the same fields as the
  first, and an unrelated array has been added.
\<close>

definition sample_store_later :: heap where
  "sample_store_later =
     sample_store @
     [Array [VStr ''unrelated''],
      Object [(''children'', VStr ''# Test''),
              (''components'', VRef 1),
              (''remarkPlugins'', VRef 2),
              (''rehypePlugins'', VRef 3),
              (''remarkRehypeOptions'', VRef 4),
              (''skipHtml'', VBool False)]]"

text \<open>
  A call of a component made by \<open>mdxComponent\<close>: the props at address 0 carry the node
  of a \<open>TestButton\<close> tag, whose attributes include a \<open>children\<close> attribute, and the
  children. The sample schema accepts an object whose \<open>variant\<close> is \<open>primary\<close> and returns
  a new object with the same properties; it rejects any other.
\<close>

definition sample_node_store :: heap where
  "sample_node_store =
     [Object [(''node'', VRef 1), (''children'', VStr ''Click me'')],
      Object [(''tagName'', VStr ''TestButton''), (''properties'', VRef 2)],
      Object [(''variant'', VStr ''primary''), (''children'', VStr ''shadowed'')]]"

definition sample_validator :: "string validator" where
  "sample_validator s v =
     (if Get s v ''variant'' = VStr ''primary''
      then Inr (VRef (length s), s @ [Object (own_props s v)])
      else Inl ''invalid'')"

text \<open>
  A schema that rejects every input and throws the properties of what it was given: it
  shows what a component made by \<open>mdxComponent\<close> hands to its validator.
\<close>

definition probe :: "(jsval props) validator" where
  "probe s v = Inl (own_props s v)"

text \<open>The same call for a tag whose \<open>variant\<close> the sample schema rejects.\<close>

definition rejected_node_store :: heap where
  "rejected_node_store =
     [Object [(''node'', VRef 1), (''children'', VStr ''Click me'')],
      Object [(''tagName'', VStr ''TestButton''), (''properties'', VRef 2)],
      Object [(''variant'', VStr ''danger'')]]"



section \<open>Facts about the language operations\<close>

subsection \<open>Property lists\<close>

lemma map_of_update_prop:
  "map_of (update_prop k v ps) x =
     (if x = k \<and> k \<in> fst ` set ps then Some v else map_of ps x)"
proof (induction ps)
  case Nil
  show ?case by simp
next
  case (Cons p ps)
  obtain k' v' where p: "p = (k', v')" by (cases p)
  show ?case using Cons.IH by (force simp: p)
qed

lemma map_of_insert_index:
  "map_of (insert_index n k v ps) = (map_of ps)(k \<mapsto> v)" if "k \<notin> fst ` set ps"
  using that
proof (induction ps)
  case Nil
  then show ?case by simp
next
  case (Cons p ps)
  obtain k' v' where p: "p = (k', v')" by (cases p)
  from Cons.prems p have ne: "k' \<noteq> k" and notin: "k \<notin> fst ` set ps" by auto
  show ?case
    using Cons.IH [OF notin] ne
    by (auto simp: p fun_eq_iff split: option.splits)
qed

lemma map_of_append_new:
  assumes "k \<notin> fst ` set ps"
  shows "[k \<mapsto> v] ++ map_of ps = (map_of ps)(k \<mapsto> v)"
proof (rule ext)
  fix x
  from assms have "map_of ps k = None" by (simp add: map_of_eq_None_iff)
  then show "([k \<mapsto> v] ++ map_of ps) x = ((map_of ps)(k \<mapsto> v)) x"
    by (cases "map_of ps x") (auto simp: map_add_def)
qed

lemma map_of_set_prop: "map_of (set_prop k v ps) = (map_of ps)(k \<mapsto> v)"
proof (cases "k \<in> fst ` set ps")
  case True
  then show ?thesis
    by (simp add: set_prop_def fun_eq_iff map_of_update_prop)
next
  case False
  then show ?thesis
    by (simp add: set_prop_def map_of_insert_index map_of_append_new split: option.splits)
qed

lemma map_of_copy_fold:
  "map_of (fold (\<lambda>k t. if k \<in> E then t else set_prop k (f k) t) ks t0) k =
     (if k \<in> set ks \<and> k \<notin> E then Some (f k) else map_of t0 k)"
  by (induction ks arbitrary: t0) (auto simp: map_of_set_prop)

lemma map_of_CopyDataProperties:
  "map_of (CopyDataProperties h target source excluded) k =
     (if k \<in> set (Object_keys h source) \<and> k \<notin> set excluded
      then Some (Val (Get h source k)) else map_of target k)"
  unfolding CopyDataProperties_def by (rule map_of_copy_fold)

lemma Get_Some: "map_of (own_props h v) k = Some x \<Longrightarrow> Get h v k = x"
  by (simp add: Get_def)


lemma in_Object_keys: "k \<in> set (Object_keys h v) \<longleftrightarrow> map_of (own_props h v) k \<noteq> None"
  by (simp add: Object_keys_def map_of_eq_None_iff)

lemma keys_set_prop: "fst ` set (set_prop k v ps) = insert k (fst ` set ps)"
proof -
  have "dom (map_of (set_prop k v ps)) = insert k (dom (map_of ps))"
    by (simp add: map_of_set_prop)
  then show ?thesis by (simp add: dom_map_of_conv_image_fst)
qed

lemma keys_CopyDataProperties:
  "fst ` set (CopyDataProperties h target source excluded) =
     fst ` set target \<union> (set (Object_keys h source) - set excluded)"
proof -
  have "dom (map_of (CopyDataProperties h target source excluded)) =
          dom (map_of target) \<union> (set (Object_keys h source) - set excluded)"
    by (auto simp: dom_def map_of_CopyDataProperties)
  then show ?thesis by (simp add: dom_map_of_conv_image_fst)
qed

lemma same_cells:
  assumes "\<forall>a. v = VRef a \<longrightarrow> cell_at h1 a = cell_at h2 a"
  shows "own_props h1 v = own_props h2 v"
    and "(iterate h1 v :: 'e exn + jsval list) = iterate h2 v"
  using assms by (cases v; simp)+

lemma CopyDataProperties_cong:
  assumes "own_props h1 v1 = own_props h2 v2"
  shows "CopyDataProperties h1 t v1 ex = CopyDataProperties h2 t v2 ex"
proof -
  from assms have G: "\<And>k. Get h1 v1 k = Get h2 v2 k" by (simp add: Get_def)
  show ?thesis unfolding CopyDataProperties_def Object_keys_def G assms ..
qed

subsection \<open>Allocation only extends the store, and stores the literal\<close>

lemma cell_at_append: "cell_at h a = Some c \<Longrightarrow> cell_at (h @ ext) a = Some c"
  by (auto simp: cell_at_def nth_append split: if_splits)

lemma cell_at_new: "cell_at (h @ [c]) (length h) = Some c"
  by (simp add: cell_at_def)

lemma alloc_extends_all:
  "\<forall>v h'. alloc l h = (v, h') \<longrightarrow> (\<exists>ext. h' = h @ ext)"
  "\<forall>vs h'. alloc_list ls h = (vs, h') \<longrightarrow> (\<exists>ext. h' = h @ ext)"
  "\<forall>qs h'. alloc_props ps h = (qs, h') \<longrightarrow> (\<exists>ext. h' = h @ ext)"
proof (induction l h and ls h and ps h rule: alloc_alloc_list_alloc_props.induct)
  case (1 v h)
  show ?case by simp
next
  case (2 ls h)
  then show ?case by (auto split: prod.splits)
next
  case (3 ps h)
  then show ?case by (auto split: prod.splits)
next
  case (4 h)
  show ?case by simp
next
  case (5 l ls h)
  show ?case
  proof (intro allI impI)
    fix vs h'
    assume a: "alloc_list (l # ls) h = (vs, h')"
    obtain v h1 where 1: "alloc l h = (v, h1)" by (cases "alloc l h")
    obtain vs' h2 where 2: "alloc_list ls h1 = (vs', h2)" by (cases "alloc_list ls h1")
    from a 1 2 have h': "h' = h2" by simp
    from "5.IH"(1) 1 obtain e1 where e1: "h1 = h @ e1" by blast
    from "5.IH"(2) [OF 1 [symmetric]] 2 obtain e2 where "h2 = h1 @ e2" by blast
    with e1 h' show "\<exists>ext. h' = h @ ext" by simp
  qed
next
  case (6 h)
  show ?case by simp
next
  case (7 p ps h)
  show ?case
  proof (intro allI impI)
    fix qs h'
    assume a: "alloc_props (p # ps) h = (qs, h')"
    obtain v h1 where 1: "alloc (snd p) h = (v, h1)" by (cases "alloc (snd p) h")
    obtain qs' h2 where 2: "alloc_props ps h1 = (qs', h2)" by (cases "alloc_props ps h1")
    from a 1 2 have h': "h' = h2" by simp
    from "7.IH"(1) 1 obtain e1 where e1: "h1 = h @ e1" by blast
    from "7.IH"(2) [OF 1 [symmetric]] 2 obtain e2 where "h2 = h1 @ e2" by blast
    with e1 h' show "\<exists>ext. h' = h @ ext" by simp
  qed
qed

lemma alloc_extends: "alloc l h = (v, h') \<Longrightarrow> \<exists>ext. h' = h @ ext"
  using alloc_extends_all(1) by blast

lemma alloc_props_extends: "alloc_props ps h = (qs, h') \<Longrightarrow> \<exists>ext. h' = h @ ext"
  using alloc_extends_all(3) by blast

lemma alloc_list_extends: "alloc_list ls h = (vs, h') \<Longrightarrow> \<exists>ext. h' = h @ ext"
  using alloc_extends_all(2) by blast

lemma holds_mono_all:
  "holds h v l \<longrightarrow> holds (h @ ext) v l"
  "holds_list h vs ls \<longrightarrow> holds_list (h @ ext) vs ls"
  "holds_props h qs ps \<longrightarrow> holds_props (h @ ext) qs ps"
proof (induction h v l and h vs ls and h qs ps rule: holds_holds_list_holds_props.induct)
  case (2 h v ls)
  then show ?case
    by (auto split: jsval.splits option.splits cell.splits simp: cell_at_append)
next
  case (3 h v ps)
  then show ?case
    by (auto split: jsval.splits option.splits cell.splits simp: cell_at_append)
qed simp_all

lemma alloc_holds_all:
  "\<forall>v h'. alloc l h = (v, h') \<longrightarrow> holds h' v l"
  "\<forall>vs h'. alloc_list ls h = (vs, h') \<longrightarrow> holds_list h' vs ls"
  "\<forall>qs h'. alloc_props ps h = (qs, h') \<longrightarrow> holds_props h' qs ps"
proof (induction l h and ls h and ps h rule: alloc_alloc_list_alloc_props.induct)
  case (1 v h)
  show ?case by simp
next
  case (2 ls h)
  show ?case
  proof (intro allI impI)
    fix v h'
    assume a: "alloc (ArrayLit ls) h = (v, h')"
    obtain vs h1 where 1: "alloc_list ls h = (vs, h1)" by (cases "alloc_list ls h")
    from a 1 have eq: "v = VRef (length h1)" "h' = h1 @ [Array vs]" by simp_all
    from "2.IH" 1 have "holds_list h1 vs ls" by blast
    then have "holds_list (h1 @ [Array vs]) vs ls" using holds_mono_all(2) by blast
    then show "holds h' v (ArrayLit ls)" by (simp add: eq cell_at_new)
  qed
next
  case (3 ps h)
  show ?case
  proof (intro allI impI)
    fix v h'
    assume a: "alloc (ObjectLit ps) h = (v, h')"
    obtain qs h1 where 1: "alloc_props ps h = (qs, h1)" by (cases "alloc_props ps h")
    from a 1 have eq: "v = VRef (length h1)" "h' = h1 @ [Object qs]" by simp_all
    from "3.IH" 1 have "holds_props h1 qs ps" by blast
    then have "holds_props (h1 @ [Object qs]) qs ps" using holds_mono_all(3) by blast
    then show "holds h' v (ObjectLit ps)" by (simp add: eq cell_at_new)
  qed
next
  case (4 h)
  show ?case by simp
next
  case (5 l ls h)
  show ?case
  proof (intro allI impI)
    fix vs h'
    assume a: "alloc_list (l # ls) h = (vs, h')"
    obtain v h1 where 1: "alloc l h = (v, h1)" by (cases "alloc l h")
    obtain vs' h2 where 2: "alloc_list ls h1 = (vs', h2)" by (cases "alloc_list ls h1")
    from a 1 2 have eq: "h' = h2" "vs = v # vs'" by simp_all
    from "5.IH"(1) 1 have "holds h1 v l" by blast
    moreover from alloc_list_extends [OF 2] obtain e where "h2 = h1 @ e" ..
    ultimately have "holds h2 v l" using holds_mono_all(1) by blast
    moreover from "5.IH"(2) [OF 1 [symmetric]] 2 have "holds_list h2 vs' ls" by blast
    ultimately show "holds_list h' vs (l # ls)" by (simp add: eq)
  qed
next
  case (6 h)
  show ?case by simp
next
  case (7 p ps h)
  show ?case
  proof (intro allI impI)
    fix qs h'
    assume a: "alloc_props (p # ps) h = (qs, h')"
    obtain v h1 where 1: "alloc (snd p) h = (v, h1)" by (cases "alloc (snd p) h")
    obtain qs' h2 where 2: "alloc_props ps h1 = (qs', h2)" by (cases "alloc_props ps h1")
    from a 1 2 have eq: "h' = h2" "qs = (fst p, v) # qs'" by simp_all
    from "7.IH"(1) 1 have "holds h1 v (snd p)" by blast
    moreover from alloc_props_extends [OF 2] obtain e where "h2 = h1 @ e" ..
    ultimately have "holds h2 v (snd p)" using holds_mono_all(1) by blast
    moreover from "7.IH"(2) [OF 1 [symmetric]] 2 have "holds_props h2 qs' ps" by blast
    ultimately show "holds_props h' qs (p # ps)" by (simp add: eq)
  qed
qed

lemma alloc_holds: "alloc l h = (v, h') \<Longrightarrow> holds h' v l"
  using alloc_holds_all(1) by blast

lemma createElement_holds:
  "createElement c config h = (el, h') \<Longrightarrow> el_type el = c \<and> holds h' (el_props el) config"
  by (auto simp: createElement_def split: prod.splits dest: alloc_holds)

lemma createElement_extends:
  "createElement c config h = (el, h') \<Longrightarrow> \<exists>ext. h' = h @ ext"
  by (auto simp: createElement_def split: prod.splits dest: alloc_extends)

lemma holds_props_lookup:
  "holds_props h qs ps \<Longrightarrow>
     map fst qs = map fst ps \<and>
     (map_of ps k = None \<longrightarrow> map_of qs k = None) \<and>
     (\<forall>v. map_of ps k = Some (Val v) \<longrightarrow> map_of qs k = Some v)"
proof (induction qs arbitrary: ps)
  case Nil
  then show ?case by (cases ps) simp_all
next
  case (Cons q qs)
  then obtain p ps' where ps: "ps = p # ps'" by (cases ps) simp_all
  obtain k1 v1 where q: "q = (k1, v1)" by (cases q)
  obtain k2 l2 where p: "p = (k2, l2)" by (cases p)
  from Cons.prems have h: "k1 = k2" "holds h v1 l2" "holds_props h qs ps'"
    by (simp_all add: ps q p)
  note IH = Cons.IH [OF h(3)]
  show ?case
  proof (cases "k = k2")
    case True
    with h(1,2) IH show ?thesis by (auto simp: ps q p)
  next
    case False
    with h(1) IH show ?thesis by (simp add: ps q p)
  qed
qed

lemma holds_ObjectLit:
  assumes "holds h v (ObjectLit ps)"
  shows "map fst (own_props h v) = map fst ps \<and>
         (map_of ps k = None \<longrightarrow> map_of (own_props h v) k = None) \<and>
         (\<forall>w. map_of ps k = Some (Val w) \<longrightarrow> map_of (own_props h v) k = Some w)"
proof -
  from assms obtain a qs where v: "v = VRef a" and c: "cell_at h a = Some (Object qs)"
    and hp: "holds_props h qs ps"
    by (auto split: jsval.splits option.splits cell.splits)
  from v c have "own_props h v = qs" by simp
  with holds_props_lookup [OF hp, of k] show ?thesis by simp
qed

section \<open>The wrapped component\<close>

subsection \<open>Shape of a successful call\<close>

lemma config_shape:
  assumes "ReactMarkdownWithMdx_props src h arg = (Inr config :: 'e exn + lit)"
  obtains remark rehype where
    "\<not> nullish arg"
    "(mergedRemarkPlugins h (Get h arg ''remarkPlugins'') (Get h arg ''remarkMdxPlugins'') :: 'e exn + lit) = Inr remark"
    "(mergedRehypePlugins h (allowedComponents src h (Get h arg ''components'')) (Get h arg ''rehypePlugins'') :: 'e exn + lit) = Inr rehype"
    "config = ObjectLit
       (set_prop ''remarkRehypeOptions'' (mergedRemarkRehypeOptions h (Get h arg ''remarkRehypeOptions''))
       (set_prop ''rehypePlugins'' rehype
       (set_prop ''remarkPlugins'' remark
       (set_prop ''components'' (Val (Get h arg ''components''))
          (CopyDataProperties h [] arg bound_names)))))"
  using assms unfolding ReactMarkdownWithMdx_props_def Let_def
  by (auto split: if_splits sum.splits)

lemma run_shape:
  assumes "ReactMarkdownWithMdx src M h arg = (Inr (el, h') :: 'e exn + 'c element \<times> heap)"
  obtains config where
    "ReactMarkdownWithMdx_props src h arg = (Inr config :: 'e exn + lit)"
    "createElement M config h = (el, h')"
  using assms unfolding ReactMarkdownWithMdx_def by (auto split: sum.splits)

lemma spread_or_empty_array:
  "is_array h v \<Longrightarrow> \<exists>xs. (spread_or_empty h v :: 'e exn + jsval list) = Inr xs"
  by (auto simp: is_array_def spread_or_empty_def nullish_def
      split: jsval.splits option.splits cell.splits)

lemma spread_or_empty_nullish:
  "nullish v \<Longrightarrow> (spread_or_empty h v :: 'e exn + jsval list) = Inr []"
  by (simp add: spread_or_empty_def)


lemma config_exists:
  assumes "\<not> nullish arg"
    and "\<forall>k \<in> {''remarkPlugins'', ''remarkMdxPlugins'', ''rehypePlugins''}.
           nullish (Get h arg k) \<or> is_array h (Get h arg k)"
  shows "\<exists>config. (ReactMarkdownWithMdx_props src h arg :: 'e exn + lit) = Inr config"
proof -
  have ok: "\<exists>xs. (spread_or_empty h (Get h arg k) :: 'e exn + jsval list) = Inr xs"
    if "k \<in> {''remarkPlugins'', ''remarkMdxPlugins'', ''rehypePlugins''}" for k
    using assms(2) that spread_or_empty_array [of h "Get h arg k"]
      spread_or_empty_nullish [of "Get h arg k" h] by blast
  from ok [of "''remarkPlugins''"] obtain ps where
    ps: "(spread_or_empty h (Get h arg ''remarkPlugins'') :: 'e exn + jsval list) = Inr ps" by auto
  from ok [of "''remarkMdxPlugins''"] obtain ms where
    ms: "(spread_or_empty h (Get h arg ''remarkMdxPlugins'') :: 'e exn + jsval list) = Inr ms" by auto
  from ok [of "''rehypePlugins''"] obtain rs where
    rs: "(spread_or_empty h (Get h arg ''rehypePlugins'') :: 'e exn + jsval list) = Inr rs" by auto
  show ?thesis
    using assms(1) ps ms rs
    by (simp add: ReactMarkdownWithMdx_props_def mergedRemarkPlugins_def mergedRehypePlugins_def Let_def)
qed



lemma config_forwards:
  assumes "ReactMarkdownWithMdx_props src h arg = (Inr config :: 'e exn + lit)"
      and "map_of (own_props h arg) k = Some v"
      and "k \<notin> {''remarkPlugins'', ''remarkMdxPlugins'', ''rehypePlugins'', ''remarkRehypeOptions''}"
  shows "lit_prop config k = Some (Val v)"
proof -
  from assms(1) obtain remark rehype where
    cfg: "config = ObjectLit
       (set_prop ''remarkRehypeOptions'' (mergedRemarkRehypeOptions h (Get h arg ''remarkRehypeOptions''))
       (set_prop ''rehypePlugins'' rehype
       (set_prop ''remarkPlugins'' remark
       (set_prop ''components'' (Val (Get h arg ''components''))
          (CopyDataProperties h [] arg bound_names)))))"
    by (rule config_shape)
  have g: "Get h arg k = v" using assms(2) by (rule Get_Some)
  have key: "k \<in> set (Object_keys h arg)" using assms(2) by (simp add: in_Object_keys)
  show ?thesis
  proof (cases "k = ''components''")
    case True
    with g show ?thesis by (simp add: cfg lit_prop_def map_of_set_prop)
  next
    case False
    with assms(3) have "k \<notin> set bound_names" by (simp add: bound_names_def)
    with key g have "map_of (CopyDataProperties h [] arg bound_names) k = Some (Val v)"
      by (simp add: map_of_CopyDataProperties)
    with False assms(3) show ?thesis by (simp add: cfg lit_prop_def map_of_set_prop)
  qed
qed

subsection \<open>The sample call, evaluated\<close>


lemma sample_run:
  "(ReactMarkdownWithMdx Index_ts () sample_store (VRef 0) :: unit exn + unit element \<times> heap) =
     Inr (\<lparr>el_type = (), el_props = VRef 12\<rparr>, sample_store_after)"
  by code_simp

subsection \<open>The allowlist\<close>





subsection \<open>The merged plugin lists\<close>




subsection \<open>The merged options record\<close>



subsection \<open>What is forwarded\<close>

text \<open>
  Claim C6. Every property of the caller's props other than \<open>remarkPlugins\<close>,
  \<open>remarkMdxPlugins\<close>, \<open>rehypePlugins\<close> and \<open>remarkRehypeOptions\<close>, the components map
  included, is in the props object given to the renderer under the same key with the very
  same value (for an object, the same address), and every cell that was in the store before
  the call is unchanged after it.
\<close>

theorem forwarded_props:
  assumes "ReactMarkdownWithMdx src M h arg = (Inr (el, h') :: 'e exn + 'c element \<times> heap)"
      and "map_of (own_props h arg) k = Some v"
      and "k \<notin> {''remarkPlugins'', ''remarkMdxPlugins'', ''rehypePlugins'', ''remarkRehypeOptions''}"
  shows "map_of (own_props h' (el_props el)) k = Some v \<and>
         (\<forall>a c. cell_at h a = Some c \<longrightarrow> cell_at h' a = Some c)"
proof -
  from assms(1) obtain config where
    c: "ReactMarkdownWithMdx_props src h arg = (Inr config :: 'e exn + lit)"
    and e: "createElement M config h = (el, h')"
    by (rule run_shape)
  from config_forwards [OF c assms(2,3)] have l: "lit_prop config k = Some (Val v)" .
  then obtain ps where ps: "config = ObjectLit ps" and m: "map_of ps k = Some (Val v)"
    by (cases config) (simp_all add: lit_prop_def)
  from createElement_holds [OF e] have "holds h' (el_props el) (ObjectLit ps)"
    by (simp add: ps)
  from holds_ObjectLit [OF this, of k] m
  have 1: "map_of (own_props h' (el_props el)) k = Some v" by simp
  from createElement_extends [OF e] obtain ext where "h' = h @ ext" ..
  then have 2: "\<forall>a c. cell_at h a = Some c \<longrightarrow> cell_at h' a = Some c"
    by (simp add: cell_at_append)
  from 1 2 show ?thesis ..
qed

theorem forwarded_props_witness:
  "(ReactMarkdownWithMdx Index_ts () sample_store (VRef 0) :: unit exn + unit element \<times> heap) =
     Inr (\<lparr>el_type = (), el_props = VRef 12\<rparr>, sample_store_after) \<and>
   map_of (own_props sample_store (VRef 0)) ''components'' = Some (VRef 1) \<and>
   map_of (own_props sample_store (VRef 0)) ''skipHtml'' = Some (VBool False) \<and>
   cell_at sample_store 1 =
     Some (Object [(''TestButton'', VFun (Extern 0)), (''TestAlert'', VFun (Extern 1))]) \<and>
   map_of (own_props sample_store_after (VRef 12)) ''components'' = Some (VRef 1) \<and>
   map_of (own_props sample_store_after (VRef 12)) ''skipHtml'' = Some (VBool False) \<and>
   cell_at sample_store_after 1 =
     Some (Object [(''TestButton'', VFun (Extern 0)), (''TestAlert'', VFun (Extern 1))])"
  (is "?run \<and> ?c0 \<and> ?s0 \<and> ?cell0 \<and> ?c1 \<and> ?s1 \<and> ?cell1")
proof -
  have c0: ?c0 by code_simp
  have s0: ?s0 by code_simp
  have cell0: ?cell0 by code_simp
  have k1: "''components'' \<notin>
      {''remarkPlugins'', ''remarkMdxPlugins'', ''rehypePlugins'', ''remarkRehypeOptions''}"
    by simp
  have k2: "''skipHtml'' \<notin>
      {''remarkPlugins'', ''remarkMdxPlugins'', ''rehypePlugins'', ''remarkRehypeOptions''}"
    by simp
  from forwarded_props [OF sample_run c0 k1] cell0 have c1: ?c1 and cell1: ?cell1
    by simp_all
  from forwarded_props [OF sample_run s0 k2] have s1: ?s1 by simp
  show ?thesis by (intro conjI) (fact sample_run c0 s0 cell0 c1 s1 cell1)+
qed

text \<open>
  Claim C7, read on the props at run time. For every props object whose three plugin
  lists are each absent, null or an array, \<open>remarkMdxPlugins\<close> among them, the component
  returned by \<open>withMdx\<close> returns an element of the given renderer, and the keys of the props
  it gives to the renderer are the keys it received without \<open>remarkMdxPlugins\<close>, together
  with the four keys it always sets.
\<close>

theorem wrapped_component_options:
  assumes "\<not> nullish arg"
    and "\<forall>k \<in> {''remarkPlugins'', ''remarkMdxPlugins'', ''rehypePlugins''}.
           nullish (Get h arg k) \<or> is_array h (Get h arg k)"
  shows "\<exists>el h'. (withMdx src M h arg :: 'e exn + 'c element \<times> heap) = Inr (el, h') \<and>
           el_type el = M \<and>
           set (Object_keys h' (el_props el)) =
             (set (Object_keys h arg) - {''remarkMdxPlugins''})
             \<union> {''components'', ''remarkPlugins'', ''rehypePlugins'', ''remarkRehypeOptions''}"
proof -
  from config_exists [OF assms] obtain config where
    c: "(ReactMarkdownWithMdx_props src h arg :: 'e exn + lit) = Inr config" by blast
  obtain el h' where e: "createElement M config h = (el, h')"
    by (cases "createElement M config h")
  from c e have run: "(withMdx src M h arg :: 'e exn + 'c element \<times> heap) = Inr (el, h')"
    by (simp add: withMdx_def ReactMarkdownWithMdx_def)
  from c obtain remark rehype where
    cfg: "config = ObjectLit
       (set_prop ''remarkRehypeOptions'' (mergedRemarkRehypeOptions h (Get h arg ''remarkRehypeOptions''))
       (set_prop ''rehypePlugins'' rehype
       (set_prop ''remarkPlugins'' remark
       (set_prop ''components'' (Val (Get h arg ''components''))
          (CopyDataProperties h [] arg bound_names)))))"
    by (rule config_shape)
  let ?ps = "set_prop ''remarkRehypeOptions'' (mergedRemarkRehypeOptions h (Get h arg ''remarkRehypeOptions''))
       (set_prop ''rehypePlugins'' rehype
       (set_prop ''remarkPlugins'' remark
       (set_prop ''components'' (Val (Get h arg ''components''))
          (CopyDataProperties h [] arg bound_names))))"
  from createElement_holds [OF e] have t: "el_type el = M"
    and hd: "holds h' (el_props el) (ObjectLit ?ps)" by (simp_all add: cfg)
  from holds_ObjectLit [OF hd] have "map fst (own_props h' (el_props el)) = map fst ?ps"
    by blast
  then have "set (Object_keys h' (el_props el)) = fst ` set ?ps"
    by (simp add: Object_keys_def)
  also have "\<dots> = (set (Object_keys h arg) - {''remarkMdxPlugins''})
             \<union> {''components'', ''remarkPlugins'', ''rehypePlugins'', ''remarkRehypeOptions''}"
    by (auto simp: keys_set_prop keys_CopyDataProperties bound_names_def)
  finally show ?thesis using run t by blast
qed

theorem wrapped_component_options_witness:
  "\<not> nullish (VRef 0) \<and>
   is_array sample_store (Get sample_store (VRef 0) ''remarkPlugins'') \<and>
   nullish (Get sample_store (VRef 0) ''remarkMdxPlugins'') \<and>
   is_array sample_store (Get sample_store (VRef 0) ''rehypePlugins'') \<and>
   (withMdx Index_ts () sample_store (VRef 0) :: unit exn + unit element \<times> heap) =
     Inr (\<lparr>el_type = (), el_props = VRef 12\<rparr>, sample_store_after) \<and>
   set (Object_keys sample_store_after (VRef 12)) =
     {''children'', ''skipHtml'', ''components'', ''remarkPlugins'', ''rehypePlugins'',
      ''remarkRehypeOptions''}"
  (is "?obj \<and> ?l1 \<and> ?l2 \<and> ?l3 \<and> ?run \<and> ?keys")
proof -
  have obj: ?obj by code_simp
  have l1: ?l1 by code_simp
  have l2: ?l2 by code_simp
  have l3: ?l3 by code_simp
  have lists: "\<forall>k \<in> {''remarkPlugins'', ''remarkMdxPlugins'', ''rehypePlugins''}.
           nullish (Get sample_store (VRef 0) k) \<or> is_array sample_store (Get sample_store (VRef 0) k)"
    using l1 l2 l3 by simp
  have run: ?run using sample_run by (simp add: withMdx_def)
  have before: "Object_keys sample_store (VRef 0) =
      [''children'', ''components'', ''remarkPlugins'', ''rehypePlugins'',
       ''remarkRehypeOptions'', ''skipHtml'']" by code_simp
  from wrapped_component_options [OF obj lists, of Index_ts "()"]
  obtain el where "\<exists>h'.
          (withMdx Index_ts () sample_store (VRef 0) :: unit exn + unit element \<times> heap) =
            Inr (el, h') \<and> el_type el = () \<and>
          set (Object_keys h' (el_props el)) =
          (set (Object_keys sample_store (VRef 0)) - {''remarkMdxPlugins''})
          \<union> {''components'', ''remarkPlugins'', ''rehypePlugins'', ''remarkRehypeOptions''}" ..
  then obtain h' where both:
         "(withMdx Index_ts () sample_store (VRef 0) :: unit exn + unit element \<times> heap) =
            Inr (el, h') \<and> el_type el = () \<and>
          set (Object_keys h' (el_props el)) =
          (set (Object_keys sample_store (VRef 0)) - {''remarkMdxPlugins''})
          \<union> {''components'', ''remarkPlugins'', ''rehypePlugins'', ''remarkRehypeOptions''}" ..
  from both have
    w: "(withMdx Index_ts () sample_store (VRef 0) :: unit exn + unit element \<times> heap) =
          Inr (el, h')" ..
  from both have ks: "set (Object_keys h' (el_props el)) =
          (set (Object_keys sample_store (VRef 0)) - {''remarkMdxPlugins''})
          \<union> {''components'', ''remarkPlugins'', ''rehypePlugins'', ''remarkRehypeOptions''}"
    by (elim conjE)
  from w have "el = \<lparr>el_type = (), el_props = VRef 12\<rparr>" and "h' = sample_store_after"
    unfolding run by simp_all
  with ks have "set (Object_keys sample_store_after (VRef 12)) =
          (set (Object_keys sample_store (VRef 0)) - {''remarkMdxPlugins''})
          \<union> {''components'', ''remarkPlugins'', ''rehypePlugins'', ''remarkRehypeOptions''}"
    by simp
  then have keys: ?keys unfolding before by auto
  show ?thesis by (intro conjI) (fact obj l1 l2 l3 run keys)+
qed

subsection \<open>Purity\<close>

text \<open>
  Claim C8. The props given to the renderer are a function of the caller's props alone:
  two calls, in any two stores, whose props objects have the same properties and in which
  the objects those properties refer to have the same contents, give the renderer equal
  props (merged remark list, merged rehype list, merged options and forwarded props). And
  a call changes no cell that was in the store before it: the store after the call is the
  store before it followed by new cells.
\<close>

theorem composition_is_pure:
  assumes "nullish arg1 = nullish arg2"
      and "own_props h1 arg1 = own_props h2 arg2"
      and "\<forall>a. VRef a \<in> snd ` set (own_props h1 arg1) \<longrightarrow> cell_at h1 a = cell_at h2 a"
  shows "(ReactMarkdownWithMdx_props src h1 arg1 :: 'e exn + lit) =
           ReactMarkdownWithMdx_props src h2 arg2 \<and>
         (\<forall>el h'. ReactMarkdownWithMdx src M h1 arg1 =
                     (Inr (el, h') :: 'e exn + 'c element \<times> heap) \<longrightarrow>
                   take (length h1) h' = h1)"
proof -
  have G: "Get h1 arg1 k = Get h2 arg2 k" for k
    using assms(2) by (simp add: Get_def)
  have cells: "\<forall>a. Get h1 arg1 k = VRef a \<longrightarrow> cell_at h1 a = cell_at h2 a" for k
  proof (intro allI impI)
    fix a assume "Get h1 arg1 k = VRef a"
    then have "map_of (own_props h1 arg1) k = Some (VRef a)"
      by (auto simp: Get_def split: option.splits)
    then have "(k, VRef a) \<in> set (own_props h1 arg1)" by (rule map_of_SomeD)
    then have "VRef a \<in> snd ` set (own_props h1 arg1)" by force
    with assms(3) show "cell_at h1 a = cell_at h2 a" by blast
  qed
  have P: "own_props h1 (Get h2 arg2 k) = own_props h2 (Get h2 arg2 k)" for k
    using same_cells(1) [OF cells [of k]] by (simp add: G)
  have I: "(iterate h1 (Get h2 arg2 k) :: 'e exn + jsval list) = iterate h2 (Get h2 arg2 k)" for k
    using same_cells(2) [OF cells [of k]] by (simp add: G)
  have S: "(spread_or_empty h1 (Get h2 arg2 k) :: 'e exn + jsval list) =
             spread_or_empty h2 (Get h2 arg2 k)" for k
    using I [of k] by (simp add: spread_or_empty_def)
  have A: "allowedComponents src h1 (Get h2 arg2 ''components'') =
           allowedComponents src h2 (Get h2 arg2 ''components'')"
    using P [of "''components''"] by (simp add: allowedComponents_def Object_keys_def)
  have R: "mergedRemarkRehypeOptions h1 (Get h2 arg2 ''remarkRehypeOptions'') =
           mergedRemarkRehypeOptions h2 (Get h2 arg2 ''remarkRehypeOptions'')"
    unfolding mergedRemarkRehypeOptions_def
    using CopyDataProperties_cong [OF P [of "''remarkRehypeOptions''"]] by simp
  have C: "CopyDataProperties h1 [] arg1 bound_names = CopyDataProperties h2 [] arg2 bound_names"
    using assms(2) by (rule CopyDataProperties_cong)
  have 1: "(ReactMarkdownWithMdx_props src h1 arg1 :: 'e exn + lit) =
           ReactMarkdownWithMdx_props src h2 arg2"
    unfolding ReactMarkdownWithMdx_props_def mergedRemarkPlugins_def mergedRehypePlugins_def
      Let_def G S A R C assms(1) ..
  have 2: "take (length h1) h' = h1"
    if "ReactMarkdownWithMdx src M h1 arg1 = (Inr (el, h') :: 'e exn + 'c element \<times> heap)"
    for el h'
  proof -
    from that obtain config where "createElement M config h1 = (el, h')"
      by (rule run_shape)
    from createElement_extends [OF this] obtain ext where "h' = h1 @ ext" ..
    then show ?thesis by simp
  qed
  from 1 2 show ?thesis by blast
qed

theorem composition_is_pure_witness:
  "nullish (VRef 0) = nullish (VRef 6) \<and>
   own_props sample_store (VRef 0) = own_props sample_store_later (VRef 6) \<and>
   snd ` set (own_props sample_store (VRef 0)) =
     {VStr ''# Test'', VRef 1, VRef 2, VRef 3, VRef 4, VBool False} \<and>
   cell_at sample_store 1 = cell_at sample_store_later 1 \<and>
   cell_at sample_store 2 = cell_at sample_store_later 2 \<and>
   cell_at sample_store 3 = cell_at sample_store_later 3 \<and>
   cell_at sample_store 4 = cell_at sample_store_later 4 \<and>
   (ReactMarkdownWithMdx Index_ts () sample_store (VRef 0) :: unit exn + unit element \<times> heap) =
     Inr (\<lparr>el_type = (), el_props = VRef 12\<rparr>, sample_store_after) \<and>
   (ReactMarkdownWithMdx_props Index_ts sample_store (VRef 0) :: unit exn + lit) =
     ReactMarkdownWithMdx_props Index_ts sample_store_later (VRef 6) \<and>
   take (length sample_store) sample_store_after = sample_store"
  (is "?n \<and> ?same \<and> ?vals \<and> ?c1 \<and> ?c2 \<and> ?c3 \<and> ?c4 \<and> ?run \<and> ?eq \<and> ?frame")
proof -
  have n: ?n by code_simp
  have same: ?same by code_simp
  have props: "own_props sample_store (VRef 0) =
     [(''children'', VStr ''# Test''), (''components'', VRef 1), (''remarkPlugins'', VRef 2),
      (''rehypePlugins'', VRef 3), (''remarkRehypeOptions'', VRef 4),
      (''skipHtml'', VBool False)]" by code_simp
  have vals: ?vals unfolding props by auto
  have c1: ?c1 by code_simp
  have c2: ?c2 by code_simp
  have c3: ?c3 by code_simp
  have c4: ?c4 by code_simp
  have cells: "\<forall>a. VRef a \<in> snd ` set (own_props sample_store (VRef 0)) \<longrightarrow>
                 cell_at sample_store a = cell_at sample_store_later a"
    unfolding vals using c1 c2 c3 c4 by auto
  note T = composition_is_pure [OF n same cells, of Index_ts "()"]
  from T have eq: ?eq by blast
  from T sample_run have frame: ?frame by blast
  show ?thesis by (intro conjI) (fact n same vals c1 c2 c3 c4 sample_run eq frame)+
qed

section \<open>The validating component\<close>

lemma array_index_children: "array_index ''children'' = None"
  by (simp add: array_index_def is_digit_def)

lemma parse_input_stored:
  assumes "alloc (parse_input h node children) h = (candidate, h1)"
  shows "map_of (own_props h1 candidate) k =
           (if k = ''children'' then Some children
            else map_of (own_props h (if nullish node then VUndefined
                                      else Get h node ''properties'')) k)"
proof -
  let ?properties = "if nullish node then VUndefined else Get h node ''properties''"
  let ?ps = "set_prop ''children'' (Val children) (CopyDataProperties h [] ?properties [])"
  have pi: "parse_input h node children = ObjectLit ?ps"
    by (simp add: parse_input_def)
  have m: "map_of ?ps k =
             (if k = ''children'' then Some (Val children)
              else map_option Val (map_of (own_props h ?properties) k))"
    by (auto simp: map_of_set_prop map_of_CopyDataProperties in_Object_keys Get_def
          split: option.splits)
  from alloc_holds [OF assms] have hd: "holds h1 candidate (ObjectLit ?ps)"
    by (simp only: pi)
  note L = holds_ObjectLit [OF hd, of k]
  show ?thesis
  proof (cases "k = ''children''")
    case True
    with m L show ?thesis by simp
  next
    case False
    show ?thesis
    proof (cases "map_of (own_props h ?properties) k")
      case None
      with False m L show ?thesis by simp
    next
      case (Some w)
      with False m L show ?thesis by simp
    qed
  qed
qed

lemma parse_input_absent_node:
  assumes "nullish node"
  shows "alloc (parse_input h node children) h =
           (VRef (length h), h @ [Object [(''children'', children)]])"
  using assms
  by (simp add: parse_input_def CopyDataProperties_def Object_keys_def set_prop_def
      array_index_children)

text \<open>
  Claim C5. A component made by \<open>mdxComponent\<close>, called with a props object, first gives
  the validator a new object that holds the attributes of the node and, under \<open>children\<close>,
  the children. When the validator throws, the call throws that very failure and makes no
  element. When the validator returns a value, the call returns an element of the given
  renderer whose props have the properties of the returned value.
\<close>

theorem validation_before_rendering:
  assumes "\<not> nullish arg"
      and "alloc (parse_input h (Get h arg ''node'') (Get h arg ''children'')) h = (candidate, h1)"
  shows "(\<forall>k. map_of (own_props h1 candidate) k =
               (if k = ''children'' then Some (Get h arg ''children'')
                else map_of (own_props h (if nullish (Get h arg ''node'') then VUndefined
                                          else Get h (Get h arg ''node'') ''properties'')) k)) \<and>
         (\<forall>z. validator h1 candidate = Inl z \<longrightarrow>
               mdxComponent Component validator h arg = Inl (Thrown z)) \<and>
         (\<forall>props h2. validator h1 candidate = Inr (props, h2) \<longrightarrow>
            (\<exists>el h3. mdxComponent Component validator h arg = Inr (el, h3) \<and>
                      el_type el = Component \<and>
                      (\<forall>k. map_of (own_props h3 (el_props el)) k =
                            map_of (own_props h2 props) k)))"
proof (intro conjI allI impI)
  fix k
  show "map_of (own_props h1 candidate) k =
               (if k = ''children'' then Some (Get h arg ''children'')
                else map_of (own_props h (if nullish (Get h arg ''node'') then VUndefined
                                          else Get h (Get h arg ''node'') ''properties'')) k)"
    using assms(2) by (rule parse_input_stored)
next
  fix z
  assume "validator h1 candidate = Inl z"
  with assms show "mdxComponent Component validator h arg = Inl (Thrown z)"
    by (simp add: mdxComponent_def ReactMarkownComponent_def)
next
  fix props h2
  assume v: "validator h1 candidate = Inr (props, h2)"
  let ?ps = "CopyDataProperties h2 [] props []"
  obtain el h3 where e: "createElement Component (ObjectLit ?ps) h2 = (el, h3)"
    by (cases "createElement Component (ObjectLit ?ps) h2")
  from assms v e have run: "mdxComponent Component validator h arg = Inr (el, h3)"
    by (simp add: mdxComponent_def ReactMarkownComponent_def)
  from createElement_holds [OF e] have t: "el_type el = Component"
    and hd: "holds h3 (el_props el) (ObjectLit ?ps)" by simp_all
  have "map_of (own_props h3 (el_props el)) k = map_of (own_props h2 props) k" for k
  proof (cases "map_of (own_props h2 props) k")
    case None
    then have "map_of ?ps k = None"
      by (simp add: map_of_CopyDataProperties in_Object_keys)
    with holds_ObjectLit [OF hd, of k] None show ?thesis by simp
  next
    case (Some w)
    then have "map_of ?ps k = Some (Val w)"
      by (simp add: map_of_CopyDataProperties in_Object_keys Get_def)
    with holds_ObjectLit [OF hd, of k] Some show ?thesis by simp
  qed
  with run t show "\<exists>el h3. mdxComponent Component validator h arg = Inr (el, h3) \<and>
                      el_type el = Component \<and>
                      (\<forall>k. map_of (own_props h3 (el_props el)) k =
                            map_of (own_props h2 props) k)"
    by blast
qed

theorem validation_before_rendering_witness:
  "\<not> nullish (VRef 0) \<and>
   alloc (parse_input sample_node_store (Get sample_node_store (VRef 0) ''node'')
            (Get sample_node_store (VRef 0) ''children'')) sample_node_store =
     (VRef 3,
      sample_node_store @
      [Object [(''variant'', VStr ''primary''), (''children'', VStr ''Click me'')]]) \<and>
   sample_validator
     (sample_node_store @
      [Object [(''variant'', VStr ''primary''), (''children'', VStr ''Click me'')]])
     (VRef 3) =
     Inr (VRef 4,
          sample_node_store @
          [Object [(''variant'', VStr ''primary''), (''children'', VStr ''Click me'')],
           Object [(''variant'', VStr ''primary''), (''children'', VStr ''Click me'')]]) \<and>
   mdxComponent () sample_validator sample_node_store (VRef 0) =
     Inr (\<lparr>el_type = (), el_props = VRef 5\<rparr>,
          sample_node_store @
          [Object [(''variant'', VStr ''primary''), (''children'', VStr ''Click me'')],
           Object [(''variant'', VStr ''primary''), (''children'', VStr ''Click me'')],
           Object [(''variant'', VStr ''primary''), (''children'', VStr ''Click me'')]]) \<and>
   alloc (parse_input rejected_node_store (Get rejected_node_store (VRef 0) ''node'')
            (Get rejected_node_store (VRef 0) ''children'')) rejected_node_store =
     (VRef 3,
      rejected_node_store @
      [Object [(''variant'', VStr ''danger''), (''children'', VStr ''Click me'')]]) \<and>
   sample_validator
     (rejected_node_store @
      [Object [(''variant'', VStr ''danger''), (''children'', VStr ''Click me'')]])
     (VRef 3) = Inl ''invalid'' \<and>
   mdxComponent () sample_validator rejected_node_store (VRef 0) = Inl (Thrown ''invalid'')"
  (is "?obj \<and> ?a1 \<and> ?v1 \<and> ?run1 \<and> ?a2 \<and> ?v2 \<and> ?run2")
proof -
  have obj: ?obj by code_simp
  have a1: ?a1 by code_simp
  have v1: ?v1 by code_simp
  have a2: ?a2 by code_simp
  have v2: ?v2 by code_simp
  note T1 = validation_before_rendering [OF obj a1, of sample_validator "()"]
  from T1 have "\<forall>props h2.
      sample_validator
        (sample_node_store @
         [Object [(''variant'', VStr ''primary''), (''children'', VStr ''Click me'')]])
        (VRef 3) = Inr (props, h2) \<longrightarrow>
      (\<exists>el h3. mdxComponent () sample_validator sample_node_store (VRef 0) = Inr (el, h3) \<and>
                el_type el = () \<and>
                (\<forall>k. map_of (own_props h3 (el_props el)) k = map_of (own_props h2 props) k))"
    by (elim conjE)
  from this [rule_format, OF v1] obtain el where
    "\<exists>h3. mdxComponent () sample_validator sample_node_store (VRef 0) = Inr (el, h3) \<and>
          el_type el = () \<and>
          (\<forall>k. map_of (own_props h3 (el_props el)) k =
                map_of (own_props
                  (sample_node_store @
                   [Object [(''variant'', VStr ''primary''), (''children'', VStr ''Click me'')],
                    Object [(''variant'', VStr ''primary''), (''children'', VStr ''Click me'')]])
                  (VRef 4)) k)" ..
  then obtain h3 where
    "mdxComponent () sample_validator sample_node_store (VRef 0) = Inr (el, h3) \<and>
          el_type el = () \<and>
          (\<forall>k. map_of (own_props h3 (el_props el)) k =
                map_of (own_props
                  (sample_node_store @
                   [Object [(''variant'', VStr ''primary''), (''children'', VStr ''Click me'')],
                    Object [(''variant'', VStr ''primary''), (''children'', VStr ''Click me'')]])
                  (VRef 4)) k)" ..
  then have succeeded: "mdxComponent () sample_validator sample_node_store (VRef 0) = Inr (el, h3)" ..
  have run1: ?run1 by code_simp
  note T2 = validation_before_rendering [OF obj a2, of sample_validator "()"]
  from T2 have "\<forall>z.
      sample_validator
        (rejected_node_store @
         [Object [(''variant'', VStr ''danger''), (''children'', VStr ''Click me'')]])
        (VRef 3) = Inl z \<longrightarrow>
      mdxComponent () sample_validator rejected_node_store (VRef 0) = Inl (Thrown z)"
    by (elim conjE)
  from this [rule_format, OF v2] have run2: ?run2 .
  show ?thesis by (intro conjI) (fact obj a1 v1 run1 a2 v2 run2)+
qed

text \<open>
  Claim C10. The object that such a component gives to its validator has the children
  argument under \<open>children\<close>, whatever the attributes of the node hold under that key;
  and when the node is absent it has that property alone. The validator \<open>probe\<close> throws
  what it is given, so what the call throws is the object given to the validator.
\<close>

theorem children_override:
  assumes "\<not> nullish arg"
  shows "\<exists>ps. mdxComponent Component probe h arg = Inl (Thrown ps) \<and>
           map_of ps ''children'' = Some (Get h arg ''children'') \<and>
           (nullish (Get h arg ''node'') \<longrightarrow> ps = [(''children'', Get h arg ''children'')])"
proof -
  let ?node = "Get h arg ''node''" and ?children = "Get h arg ''children''"
  obtain candidate h1 where a: "alloc (parse_input h ?node ?children) h = (candidate, h1)"
    by (cases "alloc (parse_input h ?node ?children) h")
  let ?ps = "own_props h1 candidate"
  from assms a have 1: "mdxComponent Component probe h arg = Inl (Thrown ?ps)"
    by (simp add: mdxComponent_def ReactMarkownComponent_def probe_def)
  from parse_input_stored [OF a, of "''children''"]
  have 2: "map_of ?ps ''children'' = Some ?children" by simp
  have 3: "?ps = [(''children'', ?children)]" if "nullish ?node"
  proof -
    from parse_input_absent_node [OF that, of h ?children] a
    have "candidate = VRef (length h)" "h1 = h @ [Object [(''children'', ?children)]]"
      by simp_all
    then show ?thesis by (simp add: cell_at_new)
  qed
  from 1 2 3 show ?thesis by blast
qed

theorem children_override_witness:
  "\<not> nullish (VRef 0) \<and>
   Get sample_node_store (VRef 0) ''children'' = VStr ''Click me'' \<and>
   map_of (own_props sample_node_store (VRef 2)) ''children'' = Some (VStr ''shadowed'') \<and>
   mdxComponent () probe sample_node_store (VRef 0) =
     Inl (Thrown [(''variant'', VStr ''primary''), (''children'', VStr ''Click me'')]) \<and>
   map_of [(''variant'', VStr ''primary''), (''children'', VStr ''Click me'')] ''children'' =
     Some (VStr ''Click me'') \<and>
   nullish (Get [Object [(''children'', VStr ''Click me'')]] (VRef 0) ''node'') \<and>
   mdxComponent () probe [Object [(''children'', VStr ''Click me'')]] (VRef 0) =
     Inl (Thrown [(''children'', VStr ''Click me'')])"
  (is "?obj \<and> ?ch \<and> ?sh \<and> ?run1 \<and> ?over \<and> ?absent \<and> ?run2")
proof -
  have obj: ?obj by code_simp
  have ch: ?ch by code_simp
  have sh: ?sh by code_simp
  have run1: ?run1 by code_simp
  have over: ?over
  proof -
    from children_override [OF obj, of "()" sample_node_store]
    show ?thesis unfolding run1 ch by auto
  qed
  have absent: ?absent by code_simp
  have ch2: "Get [Object [(''children'', VStr ''Click me'')]] (VRef 0) ''children'' =
               VStr ''Click me''" by code_simp
  have run2: ?run2
  proof -
    from children_override [OF obj, of "()" "[Object [(''children'', VStr ''Click me'')]]"] absent
    show ?thesis unfolding ch2 by auto
  qed
  show ?thesis by (intro conjI) (fact obj ch sh run1 over absent run2)+
qed

end
